theory Spec2Isabelle
  imports Complex_Main
begin

section \<open>JavaScript numbers\<close>

text \<open>
  The numbers of raft.js are frame rates, sums and quotients of them, and clock readings.
  They are modelled as exact rationals extended with the three special values a JavaScript
  number can take. Rounding of IEEE doubles and the sign of zero are not modelled: the only
  division by a computed zero in raft.js is \<open>1000 / (time - this.lastTime)\<close>, and the
  difference of two equal finite numbers is \<open>+0\<close>.
\<close>

datatype jsnum = Num rat | PosInf | NegInf | NaN

fun js_add :: "jsnum \<Rightarrow> jsnum \<Rightarrow> jsnum" where
  "js_add NaN _ = NaN"
| "js_add _ NaN = NaN"
| "js_add (Num a) (Num b) = Num (a + b)"
| "js_add PosInf NegInf = NaN"
| "js_add NegInf PosInf = NaN"
| "js_add PosInf _ = PosInf"
| "js_add _ PosInf = PosInf"
| "js_add NegInf _ = NegInf"
| "js_add _ NegInf = NegInf"

fun js_neg :: "jsnum \<Rightarrow> jsnum" where
  "js_neg (Num a) = Num (- a)"
| "js_neg PosInf = NegInf"
| "js_neg NegInf = PosInf"
| "js_neg NaN = NaN"

definition js_sub :: "jsnum \<Rightarrow> jsnum \<Rightarrow> jsnum" where
  "js_sub a b = js_add a (js_neg b)"

fun js_mul :: "jsnum \<Rightarrow> jsnum \<Rightarrow> jsnum" where
  "js_mul NaN _ = NaN"
| "js_mul _ NaN = NaN"
| "js_mul (Num a) (Num b) = Num (a * b)"
| "js_mul (Num a) PosInf = (if a = 0 then NaN else if 0 < a then PosInf else NegInf)"
| "js_mul (Num a) NegInf = (if a = 0 then NaN else if 0 < a then NegInf else PosInf)"
| "js_mul PosInf (Num b) = (if b = 0 then NaN else if 0 < b then PosInf else NegInf)"
| "js_mul NegInf (Num b) = (if b = 0 then NaN else if 0 < b then NegInf else PosInf)"
| "js_mul PosInf PosInf = PosInf"
| "js_mul NegInf NegInf = PosInf"
| "js_mul PosInf NegInf = NegInf"
| "js_mul NegInf PosInf = NegInf"

fun js_div :: "jsnum \<Rightarrow> jsnum \<Rightarrow> jsnum" where
  "js_div NaN _ = NaN"
| "js_div _ NaN = NaN"
| "js_div (Num a) (Num b) =
     (if b = 0 then (if a = 0 then NaN else if 0 < a then PosInf else NegInf)
      else Num (a / b))"
| "js_div (Num a) _ = Num 0"
| "js_div PosInf (Num b) = (if 0 \<le> b then PosInf else NegInf)"
| "js_div NegInf (Num b) = (if 0 \<le> b then NegInf else PosInf)"
| "js_div _ _ = NaN"

fun js_floor :: "jsnum \<Rightarrow> jsnum" where
  "js_floor (Num a) = Num (of_int \<lfloor>a\<rfloor>)"
| "js_floor x = x"

fun js_gt :: "jsnum \<Rightarrow> jsnum \<Rightarrow> bool" where
  "js_gt NaN _ = False"
| "js_gt _ NaN = False"
| "js_gt (Num a) (Num b) = (b < a)"
| "js_gt PosInf PosInf = False"
| "js_gt PosInf _ = True"
| "js_gt _ PosInf = False"
| "js_gt NegInf _ = False"
| "js_gt _ NegInf = True"

definition js_lt :: "jsnum \<Rightarrow> jsnum \<Rightarrow> bool" where
  "js_lt a b = js_gt b a"

definition js_ge :: "jsnum \<Rightarrow> jsnum \<Rightarrow> bool" where
  "js_ge a b = (a \<noteq> NaN \<and> b \<noteq> NaN \<and> \<not> js_gt b a)"

text \<open>Truthiness of a number: every number except \<open>0\<close> and \<open>NaN\<close>.\<close>

definition truthy :: "jsnum \<Rightarrow> bool" where
  "truthy x = (x \<noteq> Num 0 \<and> x \<noteq> NaN)"

text \<open>
  \<open>x || d\<close> for an option that may be absent (\<open>None\<close> is \<open>undefined\<close>): the left operand
  when it is truthy, the right one otherwise.
\<close>

definition js_or_num :: "jsnum option \<Rightarrow> jsnum \<Rightarrow> jsnum" where
  "js_or_num x d = (case x of None \<Rightarrow> d | Some v \<Rightarrow> if truthy v then v else d)"

definition js_or_bool :: "bool option \<Rightarrow> bool \<Rightarrow> bool" where
  "js_or_bool x d = (case x of None \<Rightarrow> d | Some v \<Rightarrow> if v then v else d)"

definition js_or_null :: "jsnum option \<Rightarrow> jsnum option" where
  "js_or_null x = (case x of None \<Rightarrow> None | Some v \<Rightarrow> if truthy v then Some v else None)"

section \<open>Arrays\<close>

text \<open>
  An array of numbers is a list of slots; \<open>None\<close> is a hole, which reads as \<open>undefined\<close>.
  A write past the end extends the array, as JavaScript does. In an addition,
  \<open>undefined\<close> converts to \<open>NaN\<close>.
\<close>

type_synonym jsarray = "jsnum option list"

datatype error = RangeError | TypeError

definition new_Array :: "jsnum \<Rightarrow> error + jsarray" where
  "new_Array n =
     (case n of
        Num q \<Rightarrow>
          if of_int \<lfloor>q\<rfloor> = q \<and> 0 \<le> q \<and> q < 2 ^ 32 then Inr (replicate (nat \<lfloor>q\<rfloor>) None)
          else Inl RangeError
      | _ \<Rightarrow> Inl RangeError)"

definition js_set :: "jsarray \<Rightarrow> nat \<Rightarrow> jsnum \<Rightarrow> jsarray" where
  "js_set a i v =
     (if i < length a then a[i := Some v]
      else a @ replicate (i - length a) None @ [Some v])"

definition js_read :: "jsarray \<Rightarrow> nat \<Rightarrow> jsnum option" where
  "js_read a i = (if i < length a then a ! i else None)"

definition to_number :: "jsnum option \<Rightarrow> jsnum" where
  "to_number x = (case x of None \<Rightarrow> NaN | Some v \<Rightarrow> v)"

definition push :: "jsarray \<Rightarrow> jsnum \<Rightarrow> jsarray" where
  "push a v = a @ [Some v]"

text \<open>\<open>for (var i = 0; i < n;) a[i++] = 0\<close>, entered at index \<open>i\<close>.\<close>

function fill_loop :: "nat \<Rightarrow> nat \<Rightarrow> jsarray \<Rightarrow> jsarray" where
  "fill_loop i n a = (if i < n then fill_loop (Suc i) n (js_set a i (Num 0)) else a)"
  by pat_completeness auto
termination
  by (relation "measure (\<lambda>(i, n, a). n - i)") auto

declare fill_loop.simps [simp del]

text \<open>\<open>for (var i = 0; i < n; i++) bufferSum += a[i]\<close>, entered at index \<open>i\<close>.\<close>

function sum_loop :: "nat \<Rightarrow> nat \<Rightarrow> jsarray \<Rightarrow> jsnum \<Rightarrow> jsnum" where
  "sum_loop i n a acc =
     (if i < n then sum_loop (Suc i) n a (js_add acc (to_number (js_read a i))) else acc)"
  by pat_completeness auto
termination
  by (relation "measure (\<lambda>(i, n, a, acc). n - i)") auto

declare sum_loop.simps [simp del]

text \<open>The sum of an array as the specification words it: its entries added up from 0.\<close>

definition sum_of :: "jsarray \<Rightarrow> jsnum" where
  "sum_of a = foldl (\<lambda>acc x. js_add acc (to_number x)) (Num 0) a"


section \<open>The Raft object\<close>

text \<open>
  The options object handed to the constructor. A field that may be left out is an option
  (\<open>None\<close> is \<open>undefined\<close>); for a callback only its presence matters, since the callbacks
  are the caller's code and are modelled by the calls made to them.
\<close>

record options =
  opt_useAverage :: "bool option"
  opt_fpsBufferLength :: "jsnum option"
  opt_loopTimeout :: "jsnum option"
  opt_targetFps :: "jsnum option"
  opt_calibrationPeriod :: "jsnum option"
  opt_action :: bool
  opt_inaction :: bool
  opt_always :: bool

text \<open>
  The fields of a Raft object together with the variables of the constructor's closure
  (\<open>useAverage\<close>, \<open>fpsBufferLength\<close>, \<open>loopTimeout\<close>, \<open>calibrationPeriod\<close>, \<open>hasInaction\<close>,
  \<open>hasAlways\<close>, \<open>updatingTargetFps\<close>). The buffer length is kept as the natural number
  that \<open>new Array\<close> accepted. A trailing underscore of the source is written as a
  prime. \<open>this.timeout_\<close> and \<open>this.request_\<close> are set to \<open>null\<close> by the
  constructor and never used again; \<open>loop\<close> and \<open>cancel\<close> use \<open>timeout\<close> and \<open>request\<close>,
  which are \<open>undefined\<close> until a step has run.
\<close>

record raft =
  useAverage :: bool
  fpsBufferLength :: nat
  loopTimeout :: jsnum
  targetFps :: jsnum
  calibrationPeriod :: "jsnum option"
  actionSupplied :: bool
  hasInaction :: bool
  hasAlways :: bool
  frames' :: nat
  lastTime :: rat
  fps :: "jsnum option"
  maxFps :: jsnum
  minFps :: jsnum
  avgFps :: "jsnum option"
  fpsBuffer :: jsarray
  bufferIndex :: nat
  updatingTargetFps :: bool
  timeout' :: "nat option"
  request' :: "nat option"
  timeout :: "nat option"
  request :: "nat option"
  frameCount :: "jsnum option"
  calibrateTargetBuffer' :: "jsarray option"

text \<open>
  What a step shows to the outside: the calls of the three callbacks, each with the
  arguments \<open>(this.frames_, fps, this.avgFps, this.maxFps)\<close>, and the line written by
  \<open>console.log\<close>.
  \<open>Action\<close> is the call \<open>action(...)\<close>, whether \<open>action\<close> is the caller's function or the
  empty default.
\<close>

type_synonym args = "nat \<times> jsnum \<times> jsnum \<times> jsnum"

datatype call = Action args | Inaction args | Always args | ConsoleLog jsnum

text \<open>
  The constructor, given the options and the reading of \<open>Date.now()\<close>. \<open>new Array\<close> throws a
  RangeError for a length that is not an integer in range. With a calibration period the
  constructor calls \<open>this.calibrateTargetFps()\<close> at a point where that method has not been
  assigned yet (it is assigned further down in the constructor), so the call throws a
  TypeError.
\<close>

definition Raft :: "options \<Rightarrow> rat \<Rightarrow> error + raft" where
  "Raft opts now0 =
     (let useAverage' = js_or_bool (opt_useAverage opts) True;
          fpsBufferLength' = js_or_num (opt_fpsBufferLength opts) (Num 3);
          loopTimeout' = js_or_num (opt_loopTimeout opts) (Num 0);
          targetFps' = js_or_num (opt_targetFps opts) (Num (121 / 2));
          calibrationPeriod' = js_or_null (opt_calibrationPeriod opts)
      in case new_Array fpsBufferLength' of
           Inl e \<Rightarrow> Inl e
         | Inr a \<Rightarrow>
             if calibrationPeriod' \<noteq> None then Inl TypeError
             else Inr \<lparr>
               useAverage = useAverage',
               fpsBufferLength = length a,
               loopTimeout = loopTimeout',
               targetFps = targetFps',
               calibrationPeriod = calibrationPeriod',
               actionSupplied = opt_action opts,
               hasInaction = opt_inaction opts,
               hasAlways = opt_always opts,
               frames' = 0,
               lastTime = now0,
               fps = None,
               maxFps = Num 0,
               minFps = PosInf,
               avgFps = None,
               fpsBuffer = fill_loop 0 (length a) a,
               bufferIndex = 0,
               updatingTargetFps = False,
               timeout' = None,
               request' = None,
               timeout = None,
               request = None,
               frameCount = None,
               calibrateTargetBuffer' = None \<rparr>)"

text \<open>
  \<open>updateCalibrationBuffer_(fps)\<close>. Before the first \<open>calibrateTargetFps\<close> the calibration
  buffer is \<open>undefined\<close> and \<open>push\<close> on it throws.
\<close>

definition updateCalibrationBuffer' :: "raft \<Rightarrow> jsnum \<Rightarrow> error + raft \<times> call list" where
  "updateCalibrationBuffer' r fps' =
     (case calibrateTargetBuffer' r of
        None \<Rightarrow> Inl TypeError
      | Some b \<Rightarrow>
          let b' = push b fps';
              r1 = r\<lparr>calibrateTargetBuffer' := Some b'\<rparr>;
              frameCount' = js_sub (to_number (frameCount r1)) (Num 1);
              r2 = r1\<lparr>frameCount := Some frameCount'\<rparr>
          in if js_lt frameCount' (Num 1) then
               let bufferSum = sum_loop 0 (length b') b' (Num 0);
                   target = js_add (js_div bufferSum (Num (of_nat (length b')))) (Num (1 / 2))
               in Inr (r2\<lparr>updatingTargetFps := False, targetFps := target\<rparr>, [ConsoleLog target])
             else Inr (r2, []))"

text \<open>
  The body of \<open>loop\<close> up to and including the call of \<open>updateCalibrationBuffer_\<close>,
  at the clock reading \<open>time\<close> returned by \<open>this.now()\<close>. The step assigns the globals \<open>time\<close> and \<open>fps\<close>; the
  field \<open>this.fps\<close> is never written. The assignments to fields of \<open>this\<close> are
  collected in one record update; no statement of the step reads a field after the step
  has written it other than through the local value written. The callbacks are taken not
  to touch the Raft object.
\<close>

definition loop_body :: "raft \<Rightarrow> rat \<Rightarrow> error + raft \<times> call list" where
  "loop_body r time =
     (let frames = frames' r + 1;
          fps' = js_floor (js_div (Num 1000) (Num (time - lastTime r)));
          maxFps' = (if js_gt fps' (maxFps r) then fps' else maxFps r);
          buffer = js_set (fpsBuffer r) (bufferIndex r) fps';
          index = (bufferIndex r + 1) mod fpsBufferLength r;
          bufferSum = sum_loop 0 (fpsBufferLength r) buffer (Num 0);
          avg = js_floor (js_div bufferSum (Num (of_nat (fpsBufferLength r))));
          r1 = r\<lparr>frames' := frames, lastTime := time, maxFps := maxFps',
                 fpsBuffer := buffer, bufferIndex := index, avgFps := Some avg\<rparr>;
          a = (frames, fps', avg, maxFps');
          decision =
            (if \<not> updatingTargetFps r \<and>
                ((useAverage r \<and>
                  js_gt bufferSum (js_mul (targetFps r) (Num (of_nat (fpsBufferLength r))))) \<or>
                 (\<not> useAverage r \<and> js_gt fps' (targetFps r)))
             then [Action a]
             else if hasInaction r then [Inaction a] else []);
          always = (if hasAlways r then [Always a] else [])
      in if updatingTargetFps r then
           (case updateCalibrationBuffer' r1 fps' of
              Inl e \<Rightarrow> Inl e
            | Inr (r2, logged) \<Rightarrow> Inr (r2, decision @ always @ logged))
         else Inr (r1, decision @ always))"

section \<open>The host: timers and animation frames\<close>

text \<open>
  The browser keeps the pending timers (identifier, delay, what to run) and the pending
  animation-frame requests, whose callback is always \<open>this.loop\<close>. Identifiers are handed
  out from counters. A pending timer or request fires when the environment says so.
\<close>

datatype task = RequestFrame | Recalibrate

record host =
  timers :: "(nat \<times> jsnum \<times> task) list"
  frame_requests :: "nat list"
  next_timer :: nat
  next_frame :: nat

definition host0 :: host where
  "host0 = \<lparr> timers = [], frame_requests = [], next_timer = 1, next_frame = 1 \<rparr>"

definition setTimeout :: "host \<Rightarrow> task \<Rightarrow> jsnum \<Rightarrow> nat \<times> host" where
  "setTimeout h f d =
     (next_timer h,
      h\<lparr>timers := timers h @ [(next_timer h, d, f)], next_timer := next_timer h + 1\<rparr>)"

definition requestAnimationFrame :: "host \<Rightarrow> nat \<times> host" where
  "requestAnimationFrame h =
     (next_frame h,
      h\<lparr>frame_requests := frame_requests h @ [next_frame h], next_frame := next_frame h + 1\<rparr>)"

text \<open>Clearing an identifier that is \<open>undefined\<close> or names nothing pending does nothing.\<close>

definition clearTimeout :: "host \<Rightarrow> nat option \<Rightarrow> host" where
  "clearTimeout h i =
     (case i of None \<Rightarrow> h
      | Some k \<Rightarrow> h\<lparr>timers := filter (\<lambda>t. fst t \<noteq> k) (timers h)\<rparr>)"

definition cancelAnimationFrame :: "host \<Rightarrow> nat option \<Rightarrow> host" where
  "cancelAnimationFrame h i =
     (case i of None \<Rightarrow> h
      | Some k \<Rightarrow> h\<lparr>frame_requests := filter (\<lambda>j. j \<noteq> k) (frame_requests h)\<rparr>)"

type_synonym world = "raft \<times> host"

text \<open>\<open>loop()\<close>: the body, then the timer that will request the next frame.\<close>

definition loop :: "world \<Rightarrow> rat \<Rightarrow> error + world \<times> call list" where
  "loop w time =
     (case loop_body (fst w) time of
        Inl e \<Rightarrow> Inl e
      | Inr (r, calls) \<Rightarrow>
          let (i, h) = setTimeout (snd w) RequestFrame (loopTimeout r)
          in Inr ((r\<lparr>timeout := Some i\<rparr>, h), calls))"

text \<open>\<open>cancel()\<close>, in a browser, where \<open>window\<close> is defined.\<close>

definition cancel :: "world \<Rightarrow> world" where
  "cancel w =
     (fst w, cancelAnimationFrame (clearTimeout (snd w) (timeout (fst w))) (request (fst w)))"

text \<open>\<open>calibrateTargetFps(frameCount)\<close>.\<close>

definition calibrateTargetFps :: "world \<Rightarrow> jsnum option \<Rightarrow> world" where
  "calibrateTargetFps w frameCount' =
     (let r = (fst w)\<lparr>frameCount := Some (js_or_num frameCount' (Num 60)),
                      calibrateTargetBuffer' := Some [],
                      updatingTargetFps := True\<rparr>
      in case calibrationPeriod r of
           None \<Rightarrow> (r, snd w)
         | Some p \<Rightarrow> (r, snd (setTimeout (snd w) Recalibrate p)))"

text \<open>
  What can happen to a Raft object: the caller invokes one of its three methods, a pending
  timer fires, or a pending animation frame fires. A step reads the clock, so the events
  that run \<open>loop\<close> carry the reading.
\<close>

datatype event =
    CallLoop rat
  | CallCancel
  | CallCalibrate "jsnum option"
  | TimerFires nat
  | FrameFires nat rat

definition fire_timer :: "world \<Rightarrow> nat \<Rightarrow> world" where
  "fire_timer w k =
     (case find (\<lambda>t. fst t = k) (timers (snd w)) of
        None \<Rightarrow> w
      | Some (_, _, f) \<Rightarrow>
          let h = clearTimeout (snd w) (Some k)
          in case f of
               RequestFrame \<Rightarrow>
                 let (j, h') = requestAnimationFrame h in ((fst w)\<lparr>request := Some j\<rparr>, h')
             | Recalibrate \<Rightarrow> calibrateTargetFps (fst w, h) None)"

definition exec :: "world \<Rightarrow> event \<Rightarrow> error + world \<times> call list" where
  "exec w e =
     (case e of
        CallLoop time \<Rightarrow> loop w time
      | CallCancel \<Rightarrow> Inr (cancel w, [])
      | CallCalibrate n \<Rightarrow> Inr (calibrateTargetFps w n, [])
      | TimerFires k \<Rightarrow> Inr (fire_timer w k, [])
      | FrameFires j time \<Rightarrow>
          if j \<in> set (frame_requests (snd w))
          then loop (fst w, cancelAnimationFrame (snd w) (Some j)) time
          else Inr (w, []))"

text \<open>A run of events; an uncaught exception ends it.\<close>

fun run :: "world \<Rightarrow> event list \<Rightarrow> error + world \<times> call list" where
  "run w [] = Inr (w, [])"
| "run w (e # es) =
     (case exec w e of
        Inl err \<Rightarrow> Inl err
      | Inr (w', calls) \<Rightarrow>
          (case run w' es of
             Inl err \<Rightarrow> Inl err
           | Inr (w'', calls') \<Rightarrow> Inr (w'', calls @ calls')))"


section \<open>Notions used in the statements\<close>

text \<open>The instantaneous frame rate a step measures at clock reading \<open>time\<close>.\<close>

definition measured_fps :: "raft \<Rightarrow> rat \<Rightarrow> jsnum" where
  "measured_fps r time = js_floor (js_div (Num 1000) (Num (time - lastTime r)))"

text \<open>
  The state a step leaves before the calibration call, the arguments it hands to the
  callbacks, its threshold decision and its callback calls, each as a function of the
  state before the step (\<open>loop_body_eq\<close> below relates them to \<open>loop_body\<close>).
\<close>

definition frame_buffer :: "raft \<Rightarrow> rat \<Rightarrow> jsarray" where
  "frame_buffer r t = js_set (fpsBuffer r) (bufferIndex r) (measured_fps r t)"

definition frame_sum :: "raft \<Rightarrow> rat \<Rightarrow> jsnum" where
  "frame_sum r t = sum_loop 0 (fpsBufferLength r) (frame_buffer r t) (Num 0)"

definition frame_avg :: "raft \<Rightarrow> rat \<Rightarrow> jsnum" where
  "frame_avg r t = js_floor (js_div (frame_sum r t) (Num (of_nat (fpsBufferLength r))))"

definition frame_max :: "raft \<Rightarrow> rat \<Rightarrow> jsnum" where
  "frame_max r t = (if js_gt (measured_fps r t) (maxFps r) then measured_fps r t else maxFps r)"

definition frame_state :: "raft \<Rightarrow> rat \<Rightarrow> raft" where
  "frame_state r t =
     r\<lparr>frames' := frames' r + 1, lastTime := t, maxFps := frame_max r t,
       fpsBuffer := frame_buffer r t,
       bufferIndex := (bufferIndex r + 1) mod fpsBufferLength r,
       avgFps := Some (frame_avg r t)\<rparr>"

definition frame_args :: "raft \<Rightarrow> rat \<Rightarrow> args" where
  "frame_args r t = (frames' r + 1, measured_fps r t, frame_avg r t, frame_max r t)"

definition threshold_met :: "raft \<Rightarrow> rat \<Rightarrow> bool" where
  "threshold_met r t =
     (\<not> updatingTargetFps r \<and>
      ((useAverage r \<and>
        js_gt (frame_sum r t) (js_mul (targetFps r) (Num (of_nat (fpsBufferLength r))))) \<or>
       (\<not> useAverage r \<and> js_gt (measured_fps r t) (targetFps r))))"

definition frame_calls :: "raft \<Rightarrow> rat \<Rightarrow> call list" where
  "frame_calls r t =
     (if threshold_met r t then [Action (frame_args r t)]
      else if hasInaction r then [Inaction (frame_args r t)] else []) @
     (if hasAlways r then [Always (frame_args r t)] else [])"

text \<open>What the loop maintains about its own state.\<close>

definition raft_inv :: "raft \<Rightarrow> bool" where
  "raft_inv r =
     (0 < fpsBufferLength r \<and> length (fpsBuffer r) = fpsBufferLength r \<and>
      bufferIndex r < fpsBufferLength r \<and> maxFps r \<noteq> NaN \<and>
      (updatingTargetFps r \<longrightarrow> calibrateTargetBuffer' r \<noteq> None))"

text \<open>What no operation changes: the closure's configuration and the \<open>minFps\<close> field.\<close>

definition same_config :: "raft \<Rightarrow> raft \<Rightarrow> bool" where
  "same_config r r' =
     (useAverage r' = useAverage r \<and> fpsBufferLength r' = fpsBufferLength r \<and>
      calibrationPeriod r' = calibrationPeriod r \<and> hasInaction r' = hasInaction r \<and>
      hasAlways r' = hasAlways r \<and> loopTimeout r' = loopTimeout r \<and>
      minFps r' = minFps r)"





text \<open>
  The four values a step reports, read from the state before the step, the clock reading
  and the state after it: the frame count, the instantaneous rate, the floor of the buffer's
  sum over its length, and the maximum.
\<close>

definition reported :: "raft \<Rightarrow> rat \<Rightarrow> raft \<Rightarrow> args" where
  "reported r t r' =
     (frames' r', measured_fps r t,
      js_floor (js_div (sum_of (fpsBuffer r')) (Num (of_nat (fpsBufferLength r')))),
      maxFps r')"

text \<open>What every event does: the invariant stays and the maximum does not fall.\<close>

definition keeps :: "raft \<Rightarrow> raft \<Rightarrow> bool" where
  "keeps r r' = (raft_inv r' \<and> js_ge (maxFps r') (maxFps r))"

section \<open>Concrete runs\<close>

text \<open>
  The options of the demonstration page \<open>main.js\<close>: the three callbacks and nothing else.
  A Raft built from them when \<open>Date.now()\<close> reads 0, and the world after the page's call
  of \<open>loop()\<close> at clock reading 5, the firing of its timer, and the animation frame at
  reading 10: two steps, each measuring 200 frames per second. A third step at reading 50
  measures 25.
\<close>

definition main_opts :: options where
  "main_opts =
     \<lparr> opt_useAverage = None, opt_fpsBufferLength = None, opt_loopTimeout = None,
       opt_targetFps = None, opt_calibrationPeriod = None,
       opt_action = True, opt_inaction = True, opt_always = True \<rparr>"

definition raft0 :: raft where
  "raft0 =
     \<lparr> useAverage = True, fpsBufferLength = 3, loopTimeout = Num 0,
       targetFps = Num (121 / 2), calibrationPeriod = None,
       actionSupplied = True, hasInaction = True, hasAlways = True,
       frames' = 0, lastTime = 0, fps = None, maxFps = Num 0,
       minFps = PosInf, avgFps = None,
       fpsBuffer = [Some (Num 0), Some (Num 0), Some (Num 0)],
       bufferIndex = 0, updatingTargetFps = False, timeout' = None,
       request' = None, timeout = None, request = None, frameCount = None,
       calibrateTargetBuffer' = None \<rparr>"

definition two_steps :: "event list" where
  "two_steps = [CallLoop 5, TimerFires 1, FrameFires 1 10]"

definition world2 :: world where
  "world2 =
     (raft0\<lparr> frames' := 2, lastTime := 10, maxFps := Num 200, avgFps := Some (Num 133),
             fpsBuffer := [Some (Num 200), Some (Num 200), Some (Num 0)],
             bufferIndex := 2, timeout := Some 2, request := Some 1 \<rparr>,
      \<lparr> timers = [(2, Num 0, RequestFrame)], frame_requests = [],
        next_timer = 3, next_frame = 2 \<rparr>)"

definition calls2 :: "call list" where
  "calls2 =
     [Action (1, Num 200, Num 66, Num 200), Always (1, Num 200, Num 66, Num 200),
      Action (2, Num 200, Num 133, Num 200), Always (2, Num 200, Num 133, Num 200)]"

definition raft3 :: raft where
  "raft3 =
     (fst world2)\<lparr> frames' := 3, lastTime := 50, avgFps := Some (Num 141),
                    fpsBuffer := [Some (Num 200), Some (Num 200), Some (Num 25)],
                    bufferIndex := 0 \<rparr>"

definition calls3 :: "call list" where
  "calls3 = [Action (3, Num 25, Num 141, Num 200), Always (3, Num 25, Num 141, Num 200)]"

text \<open>
  The same page asking for a calibration over two frames before it starts the loop: the
  world after \<open>calibrateTargetFps(2)\<close> and a first step at reading 100, which measures 10,
  and the state after a second step at reading 150, which measures 20.
\<close>

definition calibrating :: "event list" where
  "calibrating = [CallCalibrate (Some (Num 2)), CallLoop 100]"

definition world_c1 :: world where
  "world_c1 =
     (raft0\<lparr> frames' := 1, lastTime := 100, maxFps := Num 10, avgFps := Some (Num 3),
             fpsBuffer := [Some (Num 10), Some (Num 0), Some (Num 0)],
             bufferIndex := 1, updatingTargetFps := True, timeout := Some 1,
             frameCount := Some (Num 1), calibrateTargetBuffer' := Some [Some (Num 10)] \<rparr>,
      \<lparr> timers = [(1, Num 0, RequestFrame)], frame_requests = [],
        next_timer = 2, next_frame = 1 \<rparr>)"

definition calls_c1 :: "call list" where
  "calls_c1 = [Inaction (1, Num 10, Num 3, Num 10), Always (1, Num 10, Num 3, Num 10)]"

definition raft_c2 :: raft where
  "raft_c2 =
     (fst world_c1)\<lparr> targetFps := Num (31 / 2), frames' := 2, lastTime := 150,
                      maxFps := Num 20, avgFps := Some (Num 10),
                      fpsBuffer := [Some (Num 10), Some (Num 20), Some (Num 0)],
                      bufferIndex := 2, updatingTargetFps := False,
                      frameCount := Some (Num 0),
                      calibrateTargetBuffer' := Some [Some (Num 10), Some (Num 20)] \<rparr>"

definition calls_c2 :: "call list" where
  "calls_c2 =
     [Inaction (2, Num 20, Num 10, Num 20), Always (2, Num 20, Num 10, Num 20),
      ConsoleLog (Num (31 / 2))]"

text \<open>The calibrating world after the timer and the second frame, at reading 150.\<close>

definition second_frame :: "event list" where
  "second_frame = [TimerFires 1, FrameFires 1 150]"

definition world_c2 :: world where
  "world_c2 =
     (raft_c2\<lparr> timeout := Some 2, request := Some 1 \<rparr>,
      \<lparr> timers = [(2, Num 0, RequestFrame)], frame_requests = [],
        next_timer = 3, next_frame = 2 \<rparr>)"

text \<open>
  The options of a caller who asks for the instantaneous comparison against a target of 30,
  and the same two steps and third step as above.
\<close>

definition instant_opts :: options where
  "instant_opts = main_opts\<lparr> opt_useAverage := Some False, opt_targetFps := Some (Num 30) \<rparr>"

definition raft_i0 :: raft where
  "raft_i0 = raft0\<lparr> targetFps := Num 30 \<rparr>"

definition world_i2 :: world where
  "world_i2 = ((fst world2)\<lparr> targetFps := Num 30 \<rparr>, snd world2)"

definition raft_i3 :: raft where
  "raft_i3 = raft3\<lparr> targetFps := Num 30 \<rparr>"

text \<open>
  A page whose Raft is built when \<open>Date.now()\<close> reads 1000000 while the clock of the steps,
  \<open>performance.now()\<close>, reads 5 at the first step: the step measures \<open>-1\<close>.
\<close>

definition raft_late :: raft where
  "raft_late = raft0\<lparr> lastTime := 1000000 \<rparr>"

definition raft_late1 :: raft where
  "raft_late1 =
     raft_late\<lparr> frames' := 1, lastTime := 5, avgFps := Some (Num (- 1)),
                 fpsBuffer := [Some (Num (- 1)), Some (Num 0), Some (Num 0)],
                 bufferIndex := 1 \<rparr>"

definition calls_late1 :: "call list" where
  "calls_late1 = [Inaction (1, Num (- 1), Num (- 1), Num 0), Always (1, Num (- 1), Num (- 1), Num 0)]"



section \<open>The loops and the shape of a step\<close>


lemma js_or_num_truthy: "truthy d \<Longrightarrow> truthy (js_or_num x d)"
  by (simp add: js_or_num_def split: option.splits)

lemma new_Array_length:
  "new_Array n = Inr a \<Longrightarrow> truthy n \<Longrightarrow> 0 < length a \<and> n = Num (of_nat (length a))"
  by (cases n) (auto simp: new_Array_def truthy_def split: if_splits)

lemma length_js_set: "i < length a \<Longrightarrow> length (js_set a i v) = length a"
  by (simp add: js_set_def)

lemma length_fill_loop: "length a = n \<Longrightarrow> length (fill_loop i n a) = n"
proof (induction i n a rule: fill_loop.induct)
  case (1 i n a)
  show ?case
  proof (cases "i < n")
    case True
    then have "length (js_set a i (Num 0)) = n" using "1.prems" by (simp add: length_js_set)
    from "1.IH" [OF True this] True show ?thesis by (subst fill_loop.simps) simp
  next
    case False
    then show ?thesis using "1.prems" by (subst fill_loop.simps) simp
  qed
qed

lemma sum_loop_drop:
  "i \<le> length a \<Longrightarrow>
   sum_loop i (length a) a acc = foldl (\<lambda>acc x. js_add acc (to_number x)) acc (drop i a)"
proof (induction "length a - i" arbitrary: i acc)
  case 0
  then show ?case by (simp add: sum_loop.simps)
next
  case (Suc k)
  then have lt: "i < length a" by simp
  have k: "k = length a - Suc i" using Suc.hyps(2) by simp
  have "sum_loop i (length a) a acc =
        sum_loop (Suc i) (length a) a (js_add acc (to_number (js_read a i)))"
    using lt by (subst sum_loop.simps) simp
  also have "\<dots> = foldl (\<lambda>acc x. js_add acc (to_number x))
                     (js_add acc (to_number (js_read a i))) (drop (Suc i) a)"
    using Suc.hyps(1) [OF k] lt by simp
  also have "\<dots> = foldl (\<lambda>acc x. js_add acc (to_number x)) acc (drop i a)"
    using lt by (simp add: js_read_def Cons_nth_drop_Suc [symmetric])
  finally show ?case .
qed

lemma sum_loop_sum_of: "length a = n \<Longrightarrow> sum_loop 0 n a (Num 0) = sum_of a"
  using sum_loop_drop [of 0 a "Num 0"] by (simp add: sum_of_def)

lemma Raft_fields:
  assumes "Raft opts now0 = Inr r"
  shows "useAverage r" and "maxFps r = Num 0" and "minFps r = PosInf"
    and "calibrationPeriod r = None" and "\<not> updatingTargetFps r" and "bufferIndex r = 0"
    and "frames' r = 0" and "timeout r = None" and "request r = None"
    and "avgFps r = None" and "lastTime r = now0"
    and "hasInaction r = opt_inaction opts" and "hasAlways r = opt_always opts"
    and "targetFps r = js_or_num (opt_targetFps opts) (Num (121 / 2))"
  using assms
  by (auto simp: Raft_def Let_def js_or_bool_def split: sum.splits if_splits option.splits)

lemma Raft_buffer:
  assumes "Raft opts now0 = Inr r"
  shows "0 < fpsBufferLength r" and "length (fpsBuffer r) = fpsBufferLength r"
    and "js_or_num (opt_fpsBufferLength opts) (Num 3) = Num (of_nat (fpsBufferLength r))"
proof -
  let ?n = "js_or_num (opt_fpsBufferLength opts) (Num 3)"
  have t: "truthy ?n" by (rule js_or_num_truthy) (simp add: truthy_def)
  from assms obtain a where a: "new_Array ?n = Inr a"
    and r: "fpsBufferLength r = length a" "fpsBuffer r = fill_loop 0 (length a) a"
    by (auto simp: Raft_def Let_def split: sum.splits if_splits)
  from new_Array_length [OF a t] r
  show "0 < fpsBufferLength r" and "?n = Num (of_nat (fpsBufferLength r))" by simp_all
  show "length (fpsBuffer r) = fpsBufferLength r" using r by (simp add: length_fill_loop)
qed

lemma Raft_inv: "Raft opts now0 = Inr r \<Longrightarrow> raft_inv r"
  using Raft_fields [of opts now0 r] Raft_buffer [of opts now0 r]
  by (simp add: raft_inv_def)

lemma updateCalibrationBuffer'_total:
  "calibrateTargetBuffer' r \<noteq> None \<Longrightarrow> \<exists>r' cs. updateCalibrationBuffer' r f = Inr (r', cs)"
  by (auto simp: updateCalibrationBuffer'_def Let_def split: option.splits if_splits)

lemma loop_body_eq:
  "loop_body r t =
     (if updatingTargetFps r then
        (case updateCalibrationBuffer' (frame_state r t) (measured_fps r t) of
           Inl e \<Rightarrow> Inl e
         | Inr (r2, logged) \<Rightarrow> Inr (r2, frame_calls r t @ logged))
      else Inr (frame_state r t, frame_calls r t))"
  unfolding loop_body_def Let_def frame_state_def frame_calls_def frame_args_def
    threshold_met_def frame_max_def frame_avg_def frame_sum_def frame_buffer_def
    measured_fps_def
  by (simp del: js_div.simps js_floor.simps js_gt.simps js_mul.simps js_add.simps
        cong: sum.case_cong if_cong)


lemma updateCalibrationBuffer'_cases:
  assumes "updateCalibrationBuffer' r f = Inr (r', cs)"
  shows "\<exists>b c. calibrateTargetBuffer' r = Some b \<and>
           ((r' = r\<lparr>calibrateTargetBuffer' := Some (push b f), frameCount := Some c\<rparr> \<and>
             cs = []) \<or>
            (\<exists>tg. r' = r\<lparr>calibrateTargetBuffer' := Some (push b f), frameCount := Some c,
                         updatingTargetFps := False, targetFps := tg\<rparr> \<and>
                  cs = [ConsoleLog tg]))"
  using assms
  by (auto simp: updateCalibrationBuffer'_def Let_def split: option.splits if_splits)

lemma loop_body_cases:
  assumes "loop_body r t = Inr (r', cs)"
  shows "(\<not> updatingTargetFps r \<and> r' = frame_state r t \<and> cs = frame_calls r t) \<or>
         (updatingTargetFps r \<and>
          (\<exists>b c. calibrateTargetBuffer' r = Some b \<and>
             ((r' = (frame_state r t)\<lparr>calibrateTargetBuffer' := Some (push b (measured_fps r t)),
                                      frameCount := Some c\<rparr> \<and>
               cs = frame_calls r t) \<or>
              (\<exists>tg. r' = (frame_state r t)\<lparr>calibrateTargetBuffer' := Some (push b (measured_fps r t)),
                                            frameCount := Some c,
                                            updatingTargetFps := False, targetFps := tg\<rparr> \<and>
                    cs = frame_calls r t @ [ConsoleLog tg]))))"
proof (cases "updatingTargetFps r")
  case False
  then show ?thesis using assms by (simp add: loop_body_eq)
next
  case True
  then obtain logged where
    u: "updateCalibrationBuffer' (frame_state r t) (measured_fps r t) = Inr (r', logged)"
    and cs: "cs = frame_calls r t @ logged"
    using assms by (auto simp: loop_body_eq split: sum.splits)
  have "calibrateTargetBuffer' (frame_state r t) = calibrateTargetBuffer' r"
    by (simp add: frame_state_def)
  with updateCalibrationBuffer'_cases [OF u] cs True show ?thesis by auto
qed

lemma loop_body_fields:
  assumes "loop_body r t = Inr (r', cs)"
  shows "useAverage r' = useAverage r"
    and "fpsBufferLength r' = fpsBufferLength r"
    and "calibrationPeriod r' = calibrationPeriod r"
    and "hasInaction r' = hasInaction r"
    and "hasAlways r' = hasAlways r"
    and "loopTimeout r' = loopTimeout r"
    and "frames' r' = frames' r + 1"
    and "lastTime r' = t"
    and "minFps r' = minFps r"
    and "maxFps r' = frame_max r t"
    and "fpsBuffer r' = frame_buffer r t"
    and "bufferIndex r' = (bufferIndex r + 1) mod fpsBufferLength r"
    and "avgFps r' = Some (frame_avg r t)"
    and "timeout r' = timeout r"
    and "request r' = request r"
  using loop_body_cases [OF assms] by (auto simp: frame_state_def)


lemma js_gt_not_NaN: "js_gt a b \<Longrightarrow> a \<noteq> NaN \<and> b \<noteq> NaN"
  by (cases a; cases b) auto

lemma js_gt_asym: "js_gt a b \<Longrightarrow> \<not> js_gt b a"
  by (cases a; cases b) auto

lemma js_ge_refl: "a \<noteq> NaN \<Longrightarrow> js_ge a a"
  by (cases a) (auto simp: js_ge_def)

lemma js_ge_trans: "js_ge a b \<Longrightarrow> js_ge b c \<Longrightarrow> js_ge a c"
  by (cases a; cases b; cases c) (auto simp: js_ge_def)

lemma frame_max_ge: "maxFps r \<noteq> NaN \<Longrightarrow> js_ge (frame_max r t) (maxFps r)"
  using js_gt_not_NaN [of "measured_fps r t" "maxFps r"]
    js_gt_asym [of "measured_fps r t" "maxFps r"] js_gt_asym [of "maxFps r" "maxFps r"]
  by (auto simp: frame_max_def js_ge_def)

lemma loop_body_total:
  assumes "raft_inv r"
  shows "\<exists>r' cs. loop_body r t = Inr (r', cs)"
proof (cases "updatingTargetFps r")
  case False
  then show ?thesis by (simp add: loop_body_eq)
next
  case True
  with assms have "calibrateTargetBuffer' (frame_state r t) \<noteq> None"
    by (simp add: raft_inv_def frame_state_def)
  from updateCalibrationBuffer'_total [OF this, of "measured_fps r t"] True
  show ?thesis by (auto simp: loop_body_eq)
qed

lemma loop_body_inv:
  assumes inv: "raft_inv r" and step: "loop_body r t = Inr (r', cs)"
  shows "raft_inv r'"
proof -
  note f = loop_body_fields [OF step]
  have len: "length (frame_buffer r t) = fpsBufferLength r"
    using inv by (simp add: raft_inv_def frame_buffer_def length_js_set)
  have idx: "(bufferIndex r + 1) mod fpsBufferLength r < fpsBufferLength r"
    using inv by (simp add: raft_inv_def)
  have mx: "frame_max r t \<noteq> NaN"
    using frame_max_ge [of r t] inv by (auto simp: raft_inv_def js_ge_def)
  have cal: "updatingTargetFps r' \<longrightarrow> calibrateTargetBuffer' r' \<noteq> None"
    using loop_body_cases [OF step] inv by (auto simp: raft_inv_def frame_state_def)
  show ?thesis
    using inv len idx mx cal
    by (simp add: raft_inv_def f)
qed

lemma loop_Inr:
  assumes "loop w t = Inr (w', cs)"
  shows "\<exists>r'. loop_body (fst w) t = Inr (r', cs) \<and>
              fst w' = r'\<lparr>timeout := Some (next_timer (snd w))\<rparr> \<and>
              snd w' = (snd w)\<lparr>timers := timers (snd w) @
                                    [(next_timer (snd w), loopTimeout r', RequestFrame)],
                                  next_timer := next_timer (snd w) + 1\<rparr>"
  using assms
  by (auto simp: loop_def setTimeout_def split: sum.splits prod.splits)

lemma loop_total: "raft_inv (fst w) \<Longrightarrow> \<exists>w' cs. loop w t = Inr (w', cs)"
  using loop_body_total [of "fst w" t]
  by (auto simp: loop_def setTimeout_def split: sum.splits prod.splits)

lemma raft_inv_timeout [simp]: "raft_inv (r\<lparr>timeout := x\<rparr>) = raft_inv r"
  by (simp add: raft_inv_def)

lemma raft_inv_request [simp]: "raft_inv (r\<lparr>request := x\<rparr>) = raft_inv r"
  by (simp add: raft_inv_def)

lemma fst_cancel [simp]: "fst (cancel w) = fst w"
  by (simp add: cancel_def)

lemma fst_calibrateTargetFps:
  "fst (calibrateTargetFps w n) =
     (fst w)\<lparr>frameCount := Some (js_or_num n (Num 60)), calibrateTargetBuffer' := Some [],
             updatingTargetFps := True\<rparr>"
  by (simp add: calibrateTargetFps_def Let_def split: option.splits)

lemma fst_fire_timer:
  "fst (fire_timer w k) = fst w \<or> (\<exists>j. fst (fire_timer w k) = (fst w)\<lparr>request := Some j\<rparr>) \<or>
   (\<exists>h. fst (fire_timer w k) = fst (calibrateTargetFps (fst w, h) None))"
  by (auto simp: fire_timer_def requestAnimationFrame_def Let_def
           split: option.splits task.splits prod.splits)

lemma keeps_refl: "raft_inv r \<Longrightarrow> keeps r r"
  by (simp add: keeps_def raft_inv_def js_ge_refl)

lemma keeps_trans: "keeps r r' \<Longrightarrow> keeps r' r'' \<Longrightarrow> keeps r r''"
  by (auto simp: keeps_def intro: js_ge_trans)

lemma keeps_loop_body:
  "raft_inv r \<Longrightarrow> loop_body r t = Inr (r', cs) \<Longrightarrow> keeps r r'"
  using loop_body_inv [of r t r' cs] loop_body_fields(10) [of r t r' cs] frame_max_ge [of r t]
  by (simp add: keeps_def raft_inv_def)

lemma keeps_loop:
  assumes "raft_inv (fst w)" and "loop w t = Inr (w', cs)"
  shows "keeps (fst w) (fst w')"
proof -
  from loop_Inr [OF assms(2)] obtain r' where
    b: "loop_body (fst w) t = Inr (r', cs)" and w': "fst w' = r'\<lparr>timeout := Some (next_timer (snd w))\<rparr>"
    by blast
  from keeps_loop_body [OF assms(1) b] w' show ?thesis by (simp add: keeps_def)
qed

lemma keeps_calibrate: "raft_inv (fst w) \<Longrightarrow> keeps (fst w) (fst (calibrateTargetFps w n))"
  by (simp add: fst_calibrateTargetFps keeps_def raft_inv_def js_ge_refl)

lemma keeps_fire_timer:
  assumes "raft_inv (fst w)"
  shows "keeps (fst w) (fst (fire_timer w k))"
  using fst_fire_timer [of w k] assms keeps_calibrate [of "(fst w, h)" None for h]
  by (auto simp: keeps_refl) (simp add: keeps_def raft_inv_def js_ge_refl)

lemma keeps_exec:
  assumes "raft_inv (fst w)" and "exec w e = Inr (w', cs)"
  shows "keeps (fst w) (fst w')"
proof (cases e)
  case (CallLoop t)
  with assms keeps_loop [of w t w' cs] show ?thesis by (simp add: exec_def)
next
  case CallCancel
  with assms show ?thesis by (auto simp: exec_def keeps_refl)
next
  case (CallCalibrate n)
  with assms keeps_calibrate [of w n] show ?thesis by (auto simp: exec_def)
next
  case (TimerFires k)
  with assms keeps_fire_timer [of w k] show ?thesis by (auto simp: exec_def)
next
  case (FrameFires j t)
  show ?thesis
  proof (cases "j \<in> set (frame_requests (snd w))")
    case True
    with assms FrameFires
    have "loop (fst w, cancelAnimationFrame (snd w) (Some j)) t = Inr (w', cs)"
      by (simp add: exec_def)
    from keeps_loop [OF _ this] assms(1) show ?thesis by simp
  next
    case False
    with assms FrameFires show ?thesis by (auto simp: exec_def keeps_refl)
  qed
qed

lemma exec_total:
  assumes "raft_inv (fst w)"
  shows "\<exists>w' cs. exec w e = Inr (w', cs)"
  using assms loop_total [of w] loop_total [of "(fst w, cancelAnimationFrame (snd w) (Some j))" for j]
  by (cases e) (auto simp: exec_def)

lemma keeps_run:
  "raft_inv (fst w) \<Longrightarrow> run w es = Inr (w', cs) \<Longrightarrow> keeps (fst w) (fst w')"
proof (induction es arbitrary: w cs)
  case Nil
  then show ?case by (simp add: keeps_refl)
next
  case (Cons e es)
  from Cons.prems(2) obtain w1 c1 c2 where
    e: "exec w e = Inr (w1, c1)" and r: "run w1 es = Inr (w', c2)"
    by (auto split: sum.splits)
  from keeps_exec [OF Cons.prems(1) e] have k: "keeps (fst w) (fst w1)" .
  then have "raft_inv (fst w1)" by (simp add: keeps_def)
  from Cons.IH [OF this r] k show ?case by (rule keeps_trans [rotated])
qed

lemma run_total: "raft_inv (fst w) \<Longrightarrow> \<exists>w' cs. run w es = Inr (w', cs)"
proof (induction es arbitrary: w)
  case Nil
  then show ?case by simp
next
  case (Cons e es)
  from exec_total [OF Cons.prems, of e] obtain w1 c1 where e: "exec w e = Inr (w1, c1)" by blast
  from keeps_exec [OF Cons.prems e] have "raft_inv (fst w1)" by (simp add: keeps_def)
  from Cons.IH [OF this] e show ?case by auto
qed



lemma same_config_refl: "same_config r r"
  by (simp add: same_config_def)

lemma same_config_trans: "same_config r r' \<Longrightarrow> same_config r' r'' \<Longrightarrow> same_config r r''"
  by (simp add: same_config_def)

lemma same_config_loop:
  assumes "loop w t = Inr (w', cs)"
  shows "same_config (fst w) (fst w')"
proof -
  from loop_Inr [OF assms] obtain r' where
    b: "loop_body (fst w) t = Inr (r', cs)"
    and w': "fst w' = r'\<lparr>timeout := Some (next_timer (snd w))\<rparr>"
    by blast
  show ?thesis by (simp add: same_config_def w' loop_body_fields [OF b])
qed

lemma same_config_fire_timer: "same_config (fst w) (fst (fire_timer w k))"
  using fst_fire_timer [of w k]
  by (auto simp: same_config_def fst_calibrateTargetFps)

lemma same_config_exec:
  assumes "exec w e = Inr (w', cs)"
  shows "same_config (fst w) (fst w')"
proof (cases e)
  case (CallLoop t)
  with assms same_config_loop [of w t w' cs] show ?thesis by (simp add: exec_def)
next
  case CallCancel
  with assms show ?thesis by (auto simp: exec_def same_config_refl)
next
  case (CallCalibrate n)
  with assms show ?thesis by (auto simp: exec_def fst_calibrateTargetFps same_config_def)
next
  case (TimerFires k)
  with assms same_config_fire_timer [of w k] show ?thesis by (auto simp: exec_def)
next
  case (FrameFires j t)
  show ?thesis
  proof (cases "j \<in> set (frame_requests (snd w))")
    case True
    with assms FrameFires
    have "loop (fst w, cancelAnimationFrame (snd w) (Some j)) t = Inr (w', cs)"
      by (simp add: exec_def)
    from same_config_loop [OF this] show ?thesis by simp
  next
    case False
    with assms FrameFires show ?thesis by (auto simp: exec_def same_config_refl)
  qed
qed

lemma same_config_run: "run w es = Inr (w', cs) \<Longrightarrow> same_config (fst w) (fst w')"
proof (induction es arbitrary: w cs)
  case Nil
  then show ?case by (simp add: same_config_refl)
next
  case (Cons e es)
  from Cons.prems obtain w1 c1 c2 where
    e: "exec w e = Inr (w1, c1)" and r: "run w1 es = Inr (w', c2)"
    by (auto split: sum.splits)
  from same_config_exec [OF e] Cons.IH [OF r] show ?case by (rule same_config_trans)
qed



lemma frame_calls_mem:
  shows "Action a \<in> set (frame_calls r t) \<longleftrightarrow> threshold_met r t \<and> a = frame_args r t"
    and "Inaction a \<in> set (frame_calls r t) \<longleftrightarrow>
           \<not> threshold_met r t \<and> hasInaction r \<and> a = frame_args r t"
    and "Always a \<in> set (frame_calls r t) \<longleftrightarrow> hasAlways r \<and> a = frame_args r t"
  by (auto simp: frame_calls_def)

lemma loop_body_calls:
  assumes "loop_body r t = Inr (r', cs)"
  shows "Action a \<in> set cs \<longleftrightarrow> threshold_met r t \<and> a = frame_args r t"
    and "Inaction a \<in> set cs \<longleftrightarrow> \<not> threshold_met r t \<and> hasInaction r \<and> a = frame_args r t"
    and "Always a \<in> set cs \<longleftrightarrow> hasAlways r \<and> a = frame_args r t"
proof -
  from loop_body_cases [OF assms]
  have "cs = frame_calls r t \<or> (\<exists>tg. cs = frame_calls r t @ [ConsoleLog tg])" by blast
  then show "Action a \<in> set cs \<longleftrightarrow> threshold_met r t \<and> a = frame_args r t"
    and "Inaction a \<in> set cs \<longleftrightarrow> \<not> threshold_met r t \<and> hasInaction r \<and> a = frame_args r t"
    and "Always a \<in> set cs \<longleftrightarrow> hasAlways r \<and> a = frame_args r t"
    by (auto simp: frame_calls_mem)
qed

text \<open>In a state of a run, a step's sum, average and arguments read off the state it leaves.\<close>

lemma reachable_step:
  assumes "Raft opts now0 = Inr r0" and "run (r0, host0) es = Inr (w, cs)"
    and "loop_body (fst w) t = Inr (r', calls)"
  shows "frame_sum (fst w) t = sum_of (fpsBuffer r')"
    and "frame_args (fst w) t = reported (fst w) t r'"
    and "fpsBufferLength (fst w) = fpsBufferLength r0"
    and "fpsBufferLength r' = fpsBufferLength r0"
    and "useAverage (fst w)"
    and "hasInaction (fst w) = opt_inaction opts"
    and "hasAlways (fst w) = opt_always opts"
proof -
  have "raft_inv (fst (r0, host0))" using Raft_inv [OF assms(1)] by simp
  from keeps_run [OF this assms(2)] have inv: "raft_inv (fst w)" by (simp add: keeps_def)
  have c: "same_config r0 (fst w)" using same_config_run [OF assms(2)] by simp
  note f = loop_body_fields [OF assms(3)]
  have inv': "raft_inv r'" using inv assms(3) by (rule loop_body_inv)
  show n: "fpsBufferLength (fst w) = fpsBufferLength r0" using c by (simp add: same_config_def)
  show n': "fpsBufferLength r' = fpsBufferLength r0" using n f(2) by simp
  have "length (frame_buffer (fst w) t) = fpsBufferLength (fst w)"
    using inv' f(2) by (simp add: raft_inv_def f(11) [symmetric])
  then show s: "frame_sum (fst w) t = sum_of (fpsBuffer r')"
    by (simp add: frame_sum_def f(11) sum_loop_sum_of)
  show "frame_args (fst w) t = reported (fst w) t r'"
    by (simp add: frame_args_def reported_def frame_avg_def s f(2,7,10))
  show "useAverage (fst w)" using c Raft_fields(1) [OF assms(1)] by (simp add: same_config_def)
  show "hasInaction (fst w) = opt_inaction opts"
    using c Raft_fields(12) [OF assms(1)] by (simp add: same_config_def)
  show "hasAlways (fst w) = opt_always opts"
    using c Raft_fields(13) [OF assms(1)] by (simp add: same_config_def)
qed


section \<open>Calibration and cancellation\<close>















section \<open>The concrete runs, evaluated\<close>

lemma main_construct: "Raft main_opts 0 = Inr raft0"
  by code_simp

lemma main_run: "run (raft0, host0) two_steps = Inr (world2, calls2)"
  by code_simp

lemma main_step: "loop_body (fst world2) 50 = Inr (raft3, calls3)"
  by code_simp

lemma calib_run: "run (raft0, host0) calibrating = Inr (world_c1, calls_c1)"
  by code_simp simp

lemma calib_step: "loop_body (fst world_c1) 150 = Inr (raft_c2, calls_c2)"
  by code_simp simp

lemma calib_second_frame: "run world_c1 second_frame = Inr (world_c2, calls_c2)"
  by code_simp simp

lemma instant_construct: "Raft instant_opts 0 = Inr raft_i0"
  by code_simp

lemma instant_run: "run (raft_i0, host0) two_steps = Inr (world_i2, calls2)"
  by code_simp

lemma instant_step: "loop_body (fst world_i2) 50 = Inr (raft_i3, calls3)"
  by code_simp

lemma late_construct: "Raft main_opts 1000000 = Inr raft_late"
  by code_simp

lemma late_step: "loop_body raft_late 5 = Inr (raft_late1, calls_late1)"
  by code_simp simp




section \<open>The claims\<close>

text \<open>
  C1 as it is worded fails: in the second step of a two-frame calibration of the page of
  \<open>main.js\<close>, calibration is on and \<open>inaction\<close> is called.
\<close>

theorem inaction_called_while_calibrating:
  "Raft main_opts 0 = Inr raft0 \<and> run (raft0, host0) calibrating = Inr (world_c1, calls_c1) \<and>
   updatingTargetFps (fst world_c1) \<and>
   loop_body (fst world_c1) 150 = Inr (raft_c2, calls_c2) \<and>
   calls_c2 = [Inaction (2, Num 20, Num 10, Num 20), Always (2, Num 20, Num 10, Num 20),
               ConsoleLog (Num (31 / 2))]"
  using main_construct calib_run calib_step by (simp add: world_c1_def calls_c2_def)

text \<open>
  C1, as the code has it. In a step taken while calibration is on, \<open>action\<close> is not called;
  \<open>inaction\<close> is called exactly when it was supplied, and \<open>always\<close> exactly when it was
  supplied, each once and with the four values of the step. The guard of \<open>action\<close> is
  false while calibrating, and \<open>inaction\<close> is the other branch of that guard.
\<close>

theorem calibrating_step_callbacks:
  assumes "Raft opts now0 = Inr r0" and "run (r0, host0) es = Inr (w, cs)"
    and "updatingTargetFps (fst w)"
    and "loop_body (fst w) t = Inr (r', calls)"
  shows "(\<forall>b. Action b \<notin> set calls) \<and>
         (\<forall>b. Inaction b \<in> set calls \<longleftrightarrow> opt_inaction opts \<and> b = reported (fst w) t r') \<and>
         (\<forall>b. Always b \<in> set calls \<longleftrightarrow> opt_always opts \<and> b = reported (fst w) t r')"
proof -
  note s = reachable_step [OF assms(1,2,4)]
  note c = loop_body_calls [OF assms(4)]
  have "\<not> threshold_met (fst w) t" using assms(3) by (simp add: threshold_met_def)
  then show ?thesis by (simp add: c s(2) s(6) s(7))
qed

theorem calibrating_step_callbacks_witness:
  "Raft main_opts 0 = Inr raft0 \<and> run (raft0, host0) calibrating = Inr (world_c1, calls_c1) \<and>
   updatingTargetFps (fst world_c1) \<and>
   loop_body (fst world_c1) 150 = Inr (raft_c2, calls_c2) \<and>
   opt_inaction main_opts \<and> opt_always main_opts \<and>
   reported (fst world_c1) 150 raft_c2 = (2, Num 20, Num 10, Num 20) \<and>
   (\<forall>b. Action b \<notin> set calls_c2) \<and>
   Inaction (2, Num 20, Num 10, Num 20) \<in> set calls_c2 \<and>
   Always (2, Num 20, Num 10, Num 20) \<in> set calls_c2"
proof -
  have u: "updatingTargetFps (fst world_c1)"
    by (simp add: world_c1_def)
  have o: "opt_inaction main_opts \<and> opt_always main_opts"
    by (simp add: main_opts_def)
  have r: "reported (fst world_c1) 150 raft_c2 = (2, Num 20, Num 10, Num 20)"
    by (simp add: reported_def measured_fps_def raft_c2_def world_c1_def raft0_def sum_of_def
        to_number_def)
  from calibrating_step_callbacks [OF main_construct calib_run u calib_step] o
  have "(\<forall>b. Action b \<notin> set calls_c2) \<and>
        Inaction (reported (fst world_c1) 150 raft_c2) \<in> set calls_c2 \<and>
        Always (reported (fst world_c1) 150 raft_c2) \<in> set calls_c2"
    by blast
  then have "(\<forall>b. Action b \<notin> set calls_c2) \<and>
        Inaction (2, Num 20, Num 10, Num 20) \<in> set calls_c2 \<and>
        Always (2, Num 20, Num 10, Num 20) \<in> set calls_c2"
    unfolding r .
  with u o r main_construct calib_run calib_step show ?thesis by blast
qed







text \<open>
  C5. The ring buffer is created with as many entries as the configured buffer length and
  keeps that length in every state of every run; after every step the \<open>avgFps\<close> field is
  the floor of the sum of the buffer divided by the buffer length. No run of events on a
  constructed object throws, so this is about every sequence of steps.
\<close>

theorem ring_buffer_length_and_average:
  assumes "Raft opts now0 = Inr r0" and "run (r0, host0) es = Inr (w, cs)"
    and "loop_body (fst w) t = Inr (r', calls)"
  shows "js_or_num (opt_fpsBufferLength opts) (Num 3) = Num (of_nat (fpsBufferLength r0)) \<and>
         length (fpsBuffer r0) = fpsBufferLength r0 \<and>
         length (fpsBuffer (fst w)) = fpsBufferLength r0 \<and>
         length (fpsBuffer r') = fpsBufferLength r0 \<and>
         avgFps r' =
           Some (js_floor (js_div (sum_of (fpsBuffer r')) (Num (of_nat (fpsBufferLength r0))))) \<and>
         (\<exists>w1 cs1. run (r0, host0) es1 = Inr (w1, cs1))"
proof -
  note b = Raft_buffer [OF assms(1)]
  have i0: "raft_inv (fst (r0, host0))" using Raft_inv [OF assms(1)] by simp
  note tot = run_total [OF i0, of es1]
  from keeps_run [OF i0 assms(2)] have inv: "raft_inv (fst w)" by (simp add: keeps_def)
  have n: "fpsBufferLength (fst w) = fpsBufferLength r0"
    using same_config_run [OF assms(2)] by (simp add: same_config_def)
  note f = loop_body_fields [OF assms(3)]
  have inv': "raft_inv r'" using inv assms(3) by (rule loop_body_inv)
  have len': "length (fpsBuffer r') = fpsBufferLength r0"
    using inv' f(2) n by (simp add: raft_inv_def)
  have "frame_sum (fst w) t = sum_of (fpsBuffer r')"
    using len' n by (simp add: frame_sum_def f(11) [symmetric] sum_loop_sum_of)
  then have "avgFps r' =
      Some (js_floor (js_div (sum_of (fpsBuffer r')) (Num (of_nat (fpsBufferLength r0)))))"
    using n by (simp add: f(13) frame_avg_def)
  with b len' inv n tot show ?thesis by (simp add: raft_inv_def)
qed

theorem ring_buffer_length_and_average_witness:
  "Raft main_opts 0 = Inr raft0 \<and> run (raft0, host0) two_steps = Inr (world2, calls2) \<and>
   loop_body (fst world2) 50 = Inr (raft3, calls3) \<and>
   fpsBufferLength raft0 = 3 \<and> length (fpsBuffer raft3) = 3 \<and>
   sum_of (fpsBuffer raft3) = Num 425 \<and> avgFps raft3 = Some (Num 141)"
proof -
  have s: "sum_of (fpsBuffer raft3) = Num 425"
    by (simp add: raft3_def sum_of_def to_number_def)
  have a: "avgFps raft3 = Some (Num 141)" by (simp add: raft3_def)
  from ring_buffer_length_and_average [OF main_construct main_run main_step]
  have "length (fpsBuffer raft3) = fpsBufferLength raft0" by simp
  with s a main_construct main_run main_step show ?thesis by (simp add: raft0_def)
qed

text \<open>
  C6 as it is worded fails: the initial maximum is 0, not negative infinity, and the first
  sample of the page above, \<open>-1\<close>, does not become the maximum.
\<close>

theorem initial_maxFps_is_zero:
  "Raft main_opts 1000000 = Inr raft_late \<and> maxFps raft_late = Num 0 \<and>
   maxFps raft_late \<noteq> NegInf \<and>
   loop_body raft_late 5 = Inr (raft_late1, calls_late1) \<and>
   calls_late1 = [Inaction (1, Num (- 1), Num (- 1), Num 0), Always (1, Num (- 1), Num (- 1), Num 0)] \<and>
   maxFps raft_late1 = Num 0"
  using late_construct late_step
  by (simp add: raft_late_def raft_late1_def raft0_def calls_late1_def)

text \<open>
  C6, as the code has it. The constructor sets \<open>maxFps\<close> to 0 and \<open>minFps\<close> to positive
  infinity; so the first sample becomes the maximum exactly when it is greater than 0.
\<close>

theorem initial_maxFps_and_minFps:
  assumes "Raft opts now0 = Inr r"
  shows "maxFps r = Num 0 \<and> minFps r = PosInf \<and>
         (\<forall>t r' calls. loop_body r t = Inr (r', calls) \<longrightarrow>
            maxFps r' = (if js_gt (measured_fps r t) (Num 0) then measured_fps r t else Num 0))"
proof -
  note f = Raft_fields [OF assms]
  have "maxFps r' = (if js_gt (measured_fps r t) (Num 0) then measured_fps r t else Num 0)"
    if "loop_body r t = Inr (r', calls)" for t r' calls
    using loop_body_fields(10) [OF that] f(2) by (simp add: frame_max_def)
  with f(2,3) show ?thesis by blast
qed

theorem initial_maxFps_and_minFps_witness:
  "Raft main_opts 1000000 = Inr raft_late \<and> maxFps raft_late = Num 0 \<and>
   minFps raft_late = PosInf \<and> loop_body raft_late 5 = Inr (raft_late1, calls_late1) \<and>
   measured_fps raft_late 5 = Num (- 1) \<and> maxFps raft_late1 = Num 0"
proof -
  have m: "measured_fps raft_late 5 = Num (- 1)"
    by code_simp
  from initial_maxFps_and_minFps [OF late_construct] late_step
  have "maxFps raft_late = Num 0 \<and> minFps raft_late = PosInf \<and>
        maxFps raft_late1 =
          (if js_gt (measured_fps raft_late 5) (Num 0) then measured_fps raft_late 5 else Num 0)"
    by blast
  with m late_construct late_step show ?thesis by simp
qed

text \<open>
  C7. The \<open>maxFps\<close> field never falls: between any two states of a run, in particular
  between the states after two consecutive steps, the later value is greater than or equal
  to the earlier one.
\<close>

theorem maxFps_monotone:
  assumes "Raft opts now0 = Inr r0" and "run (r0, host0) es = Inr (w1, cs1)"
    and "run w1 es' = Inr (w2, cs2)"
  shows "js_ge (maxFps (fst w2)) (maxFps (fst w1))"
proof -
  have "raft_inv (fst (r0, host0))" using Raft_inv [OF assms(1)] by simp
  from keeps_run [OF this assms(2)] have "raft_inv (fst w1)" by (simp add: keeps_def)
  from keeps_run [OF this assms(3)] show ?thesis by (simp add: keeps_def)
qed

theorem maxFps_monotone_witness:
  "Raft main_opts 0 = Inr raft0 \<and> run (raft0, host0) calibrating = Inr (world_c1, calls_c1) \<and>
   run world_c1 second_frame = Inr (world_c2, calls_c2) \<and>
   maxFps (fst world_c1) = Num 10 \<and> maxFps (fst world_c2) = Num 20 \<and>
   js_ge (maxFps (fst world_c2)) (maxFps (fst world_c1))"
  using maxFps_monotone [OF main_construct calib_run calib_second_frame]
    main_construct calib_run calib_second_frame
  by (simp add: world_c1_def world_c2_def raft_c2_def)

text \<open>
  C8. Built with \<open>useAverage: false\<close> and \<open>targetFps: 30\<close>, after two steps that measured
  200, a step that measures 25 calls \<open>action\<close> and does not call \<open>inaction\<close>: the sum
  425 of the buffer is compared with 90.
\<close>

theorem useAverage_false_step_at_25:
  "opt_useAverage instant_opts = Some False \<and> opt_targetFps instant_opts = Some (Num 30) \<and>
   opt_inaction instant_opts \<and>
   Raft instant_opts 0 = Inr raft_i0 \<and> run (raft_i0, host0) two_steps = Inr (world_i2, calls2) \<and>
   measured_fps (fst world_i2) 50 = Num 25 \<and>
   loop_body (fst world_i2) 50 = Inr (raft_i3, calls3) \<and>
   calls3 = [Action (3, Num 25, Num 141, Num 200), Always (3, Num 25, Num 141, Num 200)]"
  using instant_construct instant_run instant_step
  by (simp add: instant_opts_def main_opts_def measured_fps_def world_i2_def world2_def
      raft0_def calls3_def)



text \<open>
  C10. The \<open>minFps\<close> field is set to positive infinity by the constructor and no operation
  writes it: after any run of events (calls of \<open>loop\<close>, \<open>cancel\<close> and
  \<open>calibrateTargetFps\<close>, timers and animation frames firing) it is still positive infinity.
  Every run of events on a constructed object runs to its end.
\<close>

theorem minFps_never_modified:
  assumes "Raft opts now0 = Inr r0" and "run (r0, host0) es = Inr (w, cs)"
  shows "minFps r0 = PosInf \<and> minFps (fst w) = PosInf \<and>
         (\<exists>w1 cs1. run (r0, host0) es1 = Inr (w1, cs1))"
proof -
  have "raft_inv (fst (r0, host0))" using Raft_inv [OF assms(1)] by simp
  note tot = run_total [OF this, of es1]
  have "minFps r0 = PosInf" using assms(1) by (rule Raft_fields)
  moreover have "minFps (fst w) = minFps r0"
    using same_config_run [OF assms(2)] by (simp add: same_config_def)
  ultimately show ?thesis using tot by simp
qed

theorem minFps_never_modified_witness:
  "Raft main_opts 0 = Inr raft0 \<and> run (raft0, host0) two_steps = Inr (world2, calls2) \<and>
   minFps (fst world2) = PosInf"
  using minFps_never_modified [OF main_construct main_run] main_construct main_run by simp

end
